theory Spec2Isabelle
  imports
    Complex_Main
    "HOL-Library.Product_Lexorder"
    "HOL-Library.List_Lexorder"
    "HOL-Library.Char_ord"
    "HOL-Library.State_Monad"
begin

section \<open>Adhan Live: the prayer-schedule queries\<close>

text \<open>
  The three front-ends share one computation: the class \<^verbatim>\<open>PrayerTimesManager\<close> of
  \<^verbatim>\<open>adhan-live-gui.py\<close> (the same text is in \<^verbatim>\<open>BackUp/adhan-live.py\<close>), the progress
  computation of \<^verbatim>\<open>AdhanLiveWindow.update_display\<close>, and the string-based search of the
  console variant \<^verbatim>\<open>adhan-live.py\<close>. Each method reads the clock itself
  (\<^verbatim>\<open>datetime.now(self.timezone)\<close>); here the instant read is the argument \<open>now\<close>.
\<close>

subsection \<open>Python's datetime and timedelta\<close>

text \<open>
  A \<^verbatim>\<open>datetime\<close> is its fields; the date (year, month, day) is kept as the proleptic
  ordinal of the day, \<^verbatim>\<open>toordinal()\<close>. All values of one run carry the same
  \<^verbatim>\<open>tzinfo\<close> object (or none), so comparison and subtraction look at the fields only,
  as the library does in that case. The library's limit on years (1 to 9999) is not
  part of the model.
\<close>

record datetime =
  ordinal :: int
  hour :: int
  minute :: int
  second :: int
  microsecond :: int

text \<open>The constructor accepts exactly these field values.\<close>

definition valid_datetime :: "datetime \<Rightarrow> bool" where
  "valid_datetime d =
     (0 \<le> hour d \<and> hour d < 24 \<and> 0 \<le> minute d \<and> minute d < 60 \<and>
      0 \<le> second d \<and> second d < 60 \<and> 0 \<le> microsecond d \<and> microsecond d < 1000000)"

text \<open>Comparison is the comparison of the field tuples, most significant first.\<close>

definition dt_key :: "datetime \<Rightarrow> int \<times> int \<times> int \<times> int \<times> int" where
  "dt_key d = (ordinal d, hour d, minute d, second d, microsecond d)"

definition dt_less :: "datetime \<Rightarrow> datetime \<Rightarrow> bool" where
  "dt_less a b = (dt_key a < dt_key b)"

text \<open>
  A \<^verbatim>\<open>timedelta\<close> is normalised by its constructor: \<open>0 \<le> seconds < 86400\<close> and
  \<open>0 \<le> microseconds < 1000000\<close>, the sign is carried by \<open>days\<close>.
\<close>

record timedelta =
  days :: int
  seconds :: int
  microseconds :: int

definition timedelta_of :: "int \<Rightarrow> timedelta" where
  "timedelta_of us =
     \<lparr>days = us div 86400000000,
      seconds = (us mod 86400000000) div 1000000,
      microseconds = us mod 1000000\<rparr>"

definition to_microseconds :: "datetime \<Rightarrow> int" where
  "to_microseconds d =
     (ordinal d * 86400 + hour d * 3600 + minute d * 60 + second d) * 1000000
       + microsecond d"

text \<open>\<^verbatim>\<open>a - b\<close> on two datetimes.\<close>

definition dt_sub :: "datetime \<Rightarrow> datetime \<Rightarrow> timedelta" where
  "dt_sub a b = timedelta_of (to_microseconds a - to_microseconds b)"

text \<open>\<^verbatim>\<open>d + timedelta(days=n)\<close>.\<close>

definition add_days :: "datetime \<Rightarrow> int \<Rightarrow> datetime" where
  "add_days d n = d\<lparr>ordinal := ordinal d + n\<rparr>"

text \<open>
  \<^verbatim>\<open>total_seconds()\<close> divides the microsecond count by \<open>10^6\<close>. The source only
  compares it with 0 and 60 and divides two such values; the model keeps the exact
  quotient.
\<close>

definition total_microseconds :: "timedelta \<Rightarrow> int" where
  "total_microseconds td = (days td * 86400 + seconds td) * 1000000 + microseconds td"

definition total_seconds :: "timedelta \<Rightarrow> rat" where
  "total_seconds td = of_int (total_microseconds td) / 1000000"

subsection \<open>PrayerTimesManager\<close>

record manager =
  prayer_times :: "string \<rightharpoonup> datetime"
  hijri_date :: string
  timezone :: "string option"

definition PRAYERS :: "string list" where
  "PRAYERS = [''Fajr'', ''Dhuhr'', ''Asr'', ''Maghrib'', ''Isha'']"

text \<open>The loop of \<^verbatim>\<open>get_next_prayer\<close>: the first listed prayer that is stored and later than \<open>now\<close>.\<close>

fun scan_next :: "(string \<rightharpoonup> datetime) \<Rightarrow> datetime \<Rightarrow> string list \<Rightarrow> (string \<times> datetime) option" where
  "scan_next pt now [] = None"
| "scan_next pt now (prayer # rest) =
     (case pt prayer of
        None \<Rightarrow> scan_next pt now rest
      | Some prayer_time \<Rightarrow>
          if dt_less now prayer_time then Some (prayer, prayer_time)
          else scan_next pt now rest)"

definition get_next_prayer :: "manager \<Rightarrow> datetime \<Rightarrow> (string \<times> datetime) option" where
  "get_next_prayer m now =
     (case scan_next (prayer_times m) now PRAYERS of
        Some r \<Rightarrow> Some r
      | None \<Rightarrow>
          (case prayer_times m ''Fajr'' of
             Some fajr \<Rightarrow> Some (''Fajr'', add_days fajr 1)
           | None \<Rightarrow> None))"

definition get_time_remaining :: "datetime \<Rightarrow> datetime \<Rightarrow> int \<times> int \<times> int" where
  "get_time_remaining now target_time =
     (let diff = dt_sub target_time now in
      if total_seconds diff < 0 then (0, 0, 0)
      else (seconds diff div 3600, (seconds diff mod 3600) div 60, seconds diff mod 60))"

definition is_prayer_time :: "manager \<Rightarrow> string \<Rightarrow> datetime \<Rightarrow> bool" where
  "is_prayer_time m prayer now =
     (case prayer_times m prayer of
        None \<Rightarrow> False
      | Some prayer_time \<Rightarrow> \<bar>total_seconds (dt_sub now prayer_time)\<bar> < 60)"

subsection \<open>The progress bar of update_display\<close>

definition REVERSED :: "string list" where
  "REVERSED = [''Isha'', ''Maghrib'', ''Asr'', ''Dhuhr'', ''Fajr'']"

text \<open>
  The loop with \<^verbatim>\<open>break\<close>: the first prayer of the list that is stored and earlier than
  \<open>now\<close> replaces the initial value.
\<close>

fun scan_prev :: "(string \<rightharpoonup> datetime) \<Rightarrow> datetime \<Rightarrow> string list \<Rightarrow> datetime \<Rightarrow> datetime" where
  "scan_prev pt now [] prev = prev"
| "scan_prev pt now (p # rest) prev =
     (case pt p of
        None \<Rightarrow> scan_prev pt now rest prev
      | Some t \<Rightarrow> if dt_less t now then t else scan_prev pt now rest prev)"

definition prev_prayer_time :: "manager \<Rightarrow> datetime \<Rightarrow> datetime" where
  "prev_prayer_time m now =
     scan_prev (prayer_times m) now REVERSED (now\<lparr>hour := 0, minute := 0, second := 0\<rparr>)"

definition progress_of :: "datetime \<Rightarrow> datetime \<Rightarrow> datetime \<Rightarrow> rat" where
  "progress_of now prev prayer_time =
     (let total_duration = total_seconds (dt_sub prayer_time prev);
          elapsed = total_seconds (dt_sub now prev)
      in if total_duration > 0 then min 1 (max 0 (elapsed / total_duration)) else 0)"

text \<open>
  The window and the fraction; nothing is computed when \<^verbatim>\<open>get_next_prayer\<close> returns
  \<^verbatim>\<open>None\<close>. \<^verbatim>\<open>UIRenderer.create_next_prayer_panel\<close> of the backup computes the same
  window and holds the fraction as a percentage.
\<close>

definition progress_window :: "manager \<Rightarrow> datetime \<Rightarrow> (datetime \<times> datetime \<times> rat) option" where
  "progress_window m now =
     (case get_next_prayer m now of
        None \<Rightarrow> None
      | Some (prayer, prayer_time) \<Rightarrow>
          (let prev = prev_prayer_time m now
           in Some (prev, prayer_time, progress_of now prev prayer_time)))"

subsection \<open>The queries as methods of the manager\<close>

text \<open>
  The methods once more, statement by statement, as programs over the object: a program
  takes the manager and returns its result together with the manager as it leaves it.
  Reading a field is \<^verbatim>\<open>get\<close>; an assignment to a field would be \<^verbatim>\<open>set\<close>. The clock is
  the function \<open>clock\<close>: \<open>clock (Some z)\<close> stands for \<^verbatim>\<open>datetime.now(ZoneInfo(z))\<close> and
  \<open>clock None\<close> for \<^verbatim>\<open>datetime.now()\<close>, at the instant of the calls.
\<close>

text \<open>\<^verbatim>\<open>datetime.now(self.timezone) if self.timezone else datetime.now()\<close>\<close>

definition read_now :: "(string option \<Rightarrow> datetime) \<Rightarrow> (manager, datetime) state" where
  "read_now clock = do {
     self \<leftarrow> State_Monad.get;
     State_Monad.return (clock (timezone self))
   }"

text \<open>
  \<^verbatim>\<open>prayer in self.prayer_times\<close> followed by \<^verbatim>\<open>self.prayer_times[prayer]\<close>: the entry, or
  \<^verbatim>\<open>None\<close> when the key is absent.
\<close>

definition lookup_time :: "string \<Rightarrow> (manager, datetime option) state" where
  "lookup_time prayer = do {
     self \<leftarrow> State_Monad.get;
     State_Monad.return (prayer_times self prayer)
   }"

fun next_loop :: "datetime \<Rightarrow> string list \<Rightarrow> (manager, (string \<times> datetime) option) state" where
  "next_loop now [] = State_Monad.return None"
| "next_loop now (prayer # rest) = do {
     entry \<leftarrow> lookup_time prayer;
     case entry of
       None \<Rightarrow> next_loop now rest
     | Some prayer_time \<Rightarrow>
         if dt_less now prayer_time then State_Monad.return (Some (prayer, prayer_time))
         else next_loop now rest
   }"

definition get_next_prayer_method ::
  "(string option \<Rightarrow> datetime) \<Rightarrow> (manager, (string \<times> datetime) option) state" where
  "get_next_prayer_method clock = do {
     now \<leftarrow> read_now clock;
     found \<leftarrow> next_loop now PRAYERS;
     case found of
       Some r \<Rightarrow> State_Monad.return (Some r)
     | None \<Rightarrow> do {
         entry \<leftarrow> lookup_time ''Fajr'';
         case entry of
           Some fajr \<Rightarrow> State_Monad.return (Some (''Fajr'', add_days fajr 1))
         | None \<Rightarrow> State_Monad.return None
       }
   }"

definition get_time_remaining_method ::
  "(string option \<Rightarrow> datetime) \<Rightarrow> datetime \<Rightarrow> (manager, int \<times> int \<times> int) state" where
  "get_time_remaining_method clock target_time = do {
     now \<leftarrow> read_now clock;
     let diff = dt_sub target_time now;
     if total_seconds diff < 0 then State_Monad.return (0, 0, 0)
     else State_Monad.return
            (seconds diff div 3600, (seconds diff mod 3600) div 60, seconds diff mod 60)
   }"

definition is_prayer_time_method ::
  "(string option \<Rightarrow> datetime) \<Rightarrow> string \<Rightarrow> (manager, bool) state" where
  "is_prayer_time_method clock prayer = do {
     entry \<leftarrow> lookup_time prayer;
     case entry of
       None \<Rightarrow> State_Monad.return False
     | Some prayer_time \<Rightarrow> do {
         now \<leftarrow> read_now clock;
         State_Monad.return (\<bar>total_seconds (dt_sub now prayer_time)\<bar> < 60)
       }
   }"

fun prev_loop :: "datetime \<Rightarrow> string list \<Rightarrow> datetime \<Rightarrow> (manager, datetime) state" where
  "prev_loop now [] prev = State_Monad.return prev"
| "prev_loop now (p # rest) prev = do {
     entry \<leftarrow> lookup_time p;
     case entry of
       None \<Rightarrow> prev_loop now rest prev
     | Some t \<Rightarrow> if dt_less t now then State_Monad.return t else prev_loop now rest prev
   }"

text \<open>
  The progress computation of \<^verbatim>\<open>update_display\<close>, as far as it touches the manager; the
  countdown goes to a label.
\<close>

definition progress_window_method ::
  "(string option \<Rightarrow> datetime) \<Rightarrow> (manager, (datetime \<times> datetime \<times> rat) option) state" where
  "progress_window_method clock = do {
     now \<leftarrow> read_now clock;
     next_prayer_data \<leftarrow> get_next_prayer_method clock;
     case next_prayer_data of
       None \<Rightarrow> State_Monad.return None
     | Some (prayer, prayer_time) \<Rightarrow> do {
         countdown \<leftarrow> get_time_remaining_method clock prayer_time;
         prev \<leftarrow> prev_loop now REVERSED (now\<lparr>hour := 0, minute := 0, second := 0\<rparr>);
         let total_duration = total_seconds (dt_sub prayer_time prev);
         let elapsed = total_seconds (dt_sub now prev);
         State_Monad.return
           (Some (prev, prayer_time,
                  if total_duration > 0 then min 1 (max 0 (elapsed / total_duration)) else 0))
       }
   }"

text \<open>Two calls of a method, one after the other, with both results.\<close>

definition twice :: "('s, 'a) state \<Rightarrow> ('s, 'a \<times> 'a) state" where
  "twice method = do {
     first \<leftarrow> method;
     again \<leftarrow> method;
     State_Monad.return (first, again)
   }"

subsection \<open>Refreshing the schedule: update\<close>

text \<open>
  A character of a string is a code point below 256. \<^verbatim>\<open>str.split()\<close> without argument
  cuts at runs of white space and returns no empty word; \<^verbatim>\<open>str.split(':')\<close> cuts at every
  colon and keeps empty pieces. The white space below 256 is the space, the controls 9 to 13
  and 28 to 31, the next-line control 133 and the no-break space 160.
\<close>

definition is_space :: "char \<Rightarrow> bool" where
  "is_space c =
     (let n = (of_char c :: nat)
      in n = 32 \<or> (9 \<le> n \<and> n \<le> 13) \<or> (28 \<le> n \<and> n \<le> 31) \<or> n = 133 \<or> n = 160)"

fun split_ws :: "string \<Rightarrow> string \<Rightarrow> string list" where
  "split_ws w [] = (if w = [] then [] else [w])"
| "split_ws w (c # cs) =
     (if is_space c then (if w = [] then split_ws [] cs else w # split_ws [] cs)
      else split_ws (w @ [c]) cs)"

definition split :: "string \<Rightarrow> string list" where
  "split s = split_ws [] s"

fun split_on :: "char \<Rightarrow> string \<Rightarrow> string \<Rightarrow> string list" where
  "split_on sep w [] = [w]"
| "split_on sep w (c # cs) =
     (if c = sep then w # split_on sep [] cs else split_on sep (w @ [c]) cs)"

text \<open>
  \<^verbatim>\<open>int(s)\<close> in base 10: white space around the text is dropped, then an optional sign,
  then digits, where one underscore may stand between two digits. \<^verbatim>\<open>None\<close> is the
  \<^verbatim>\<open>ValueError\<close>. The interpreter's limit on the length of the digit string is not part
  of the model.
\<close>

definition is_digit :: "char \<Rightarrow> bool" where
  "is_digit c = (let n = (of_char c :: nat) in 48 \<le> n \<and> n \<le> 57)"

definition digit_value :: "char \<Rightarrow> int" where
  "digit_value c = int (of_char c) - 48"

fun int_digits :: "int \<Rightarrow> string \<Rightarrow> int option" where
  "int_digits acc [] = Some acc"
| "int_digits acc (c # cs) =
     (if is_digit c then int_digits (acc * 10 + digit_value c) cs
      else if c = CHR ''_'' then
        (case cs of
           [] \<Rightarrow> None
         | d # ds \<Rightarrow> if is_digit d then int_digits (acc * 10 + digit_value d) ds else None)
      else None)"

definition int_unsigned :: "string \<Rightarrow> int option" where
  "int_unsigned s =
     (case s of
        [] \<Rightarrow> None
      | c # cs \<Rightarrow> if is_digit c then int_digits (digit_value c) cs else None)"

definition strip :: "string \<Rightarrow> string" where
  "strip s = rev (dropWhile is_space (rev (dropWhile is_space s)))"

definition py_int :: "string \<Rightarrow> int option" where
  "py_int s =
     (case strip s of
        [] \<Rightarrow> None
      | c # cs \<Rightarrow>
          if c = CHR ''-'' then map_option uminus (int_unsigned cs)
          else if c = CHR ''+'' then int_unsigned cs
          else int_unsigned (c # cs))"

text \<open>
  The body of the \<^verbatim>\<open>try\<close>: the unpacking needs exactly two pieces, each an integer, and
  \<^verbatim>\<open>replace\<close> accepts the hour in 0..23 and the minute in 0..59. Every exception in
  there is caught, which is the result \<^verbatim>\<open>None\<close>.
\<close>

definition parse_time :: "datetime \<Rightarrow> string \<Rightarrow> datetime option" where
  "parse_time date_obj time_str =
     (case map py_int (split_on CHR '':'' [] time_str) of
        [Some h, Some mi] \<Rightarrow>
          if 0 \<le> h \<and> h < 24 \<and> 0 \<le> mi \<and> mi < 60
          then Some (date_obj\<lparr>hour := h, minute := mi, second := 0, microsecond := 0\<rparr>)
          else None
      | _ \<Rightarrow> None)"

datatype py_error = IndexError

text \<open>
  The loop over the five names. \<^verbatim>\<open>timings[prayer].split()[0]\<close> stands before the
  \<^verbatim>\<open>try\<close>, so its \<^verbatim>\<open>IndexError\<close> leaves the loop and the method; the result carries
  the dictionary as the loop left it.
\<close>

fun update_loop ::
  "(string \<rightharpoonup> string) \<Rightarrow> datetime \<Rightarrow> string list \<Rightarrow> (string \<rightharpoonup> datetime)
     \<Rightarrow> py_error option \<times> (string \<rightharpoonup> datetime)" where
  "update_loop tm date_obj [] acc = (None, acc)"
| "update_loop tm date_obj (prayer # rest) acc =
     (case tm prayer of
        None \<Rightarrow> update_loop tm date_obj rest acc
      | Some v \<Rightarrow>
          (case split v of
             [] \<Rightarrow> (Some IndexError, acc)
           | time_str # _ \<Rightarrow>
               (case parse_time date_obj time_str of
                  Some prayer_time \<Rightarrow> update_loop tm date_obj rest (acc(prayer \<mapsto> prayer_time))
                | None \<Rightarrow> update_loop tm date_obj rest acc)))"

text \<open>
  The response of the timings service, as far as \<^verbatim>\<open>update\<close> reads it; an absent hijri
  entry is the empty string.
\<close>

record api_data =
  timings :: "string \<rightharpoonup> string"
  hijri_day :: string
  hijri_month_en :: string
  hijri_year :: string

text \<open>
  \<^verbatim>\<open>update\<close>: \<open>data\<close> is what \<^verbatim>\<open>fetch_prayer_times\<close> returned (\<^verbatim>\<open>None\<close> for no data),
  \<open>tz_name\<close> the configured zone name, \<open>zone_info\<close> the lookup of a zone (\<^verbatim>\<open>None\<close> when
  it raises) and \<open>date_obj\<close> the clock value read after the zone is set. \<^verbatim>\<open>Inr\<close> is a
  normal return with its value, \<^verbatim>\<open>Inl\<close> an exception leaving the method, each with the
  object as it is then.
\<close>

definition update ::
  "(string \<Rightarrow> string option) \<Rightarrow> string option \<Rightarrow> manager \<Rightarrow> api_data option \<Rightarrow> datetime
     \<Rightarrow> (py_error \<times> manager) + (bool \<times> manager)" where
  "update zone_info tz_name m data date_obj =
     (case data of
        None \<Rightarrow> Inr (False, m)
      | Some d \<Rightarrow>
          (let tz = (case tz_name of
                       None \<Rightarrow> timezone m
                     | Some n \<Rightarrow> if n = [] then timezone m else zone_info n)
           in case update_loop (timings d) date_obj PRAYERS Map.empty of
                (Some e, pt) \<Rightarrow> Inl (e, m\<lparr>prayer_times := pt, timezone := tz\<rparr>)
              | (None, pt) \<Rightarrow>
                  Inr (True,
                       \<lparr>prayer_times = pt,
                        hijri_date = hijri_day d @ '' '' @ hijri_month_en d @ '' '' @ hijri_year d,
                        timezone = tz\<rparr>)))"

subsection \<open>The console variant\<close>

text \<open>
  \<^verbatim>\<open>adhan-live.py\<close> keeps the time strings of the service as they come and compares them
  with \<^verbatim>\<open>now.strftime('%H:%M')\<close> as strings, that is lexicographically by character code.
\<close>

definition digit_char :: "int \<Rightarrow> char" where
  "digit_char d = char_of (48 + d)"

definition two_digits :: "int \<Rightarrow> string" where
  "two_digits n = [digit_char (n div 10), digit_char (n mod 10)]"

text \<open>
  The format \<^verbatim>\<open>%H:%M\<close>: two digits, a colon, two digits, for the hour and the minute
  of a valid datetime.
\<close>

definition hhmm :: "int \<Rightarrow> int \<Rightarrow> string" where
  "hhmm h mi = two_digits h @ '':'' @ two_digits mi"

definition strftime_HM :: "datetime \<Rightarrow> string" where
  "strftime_HM d = hhmm (hour d) (minute d)"

fun console_scan :: "(string \<rightharpoonup> string) \<Rightarrow> string \<Rightarrow> string list \<Rightarrow> (string \<times> string) option" where
  "console_scan pt current_time [] = None"
| "console_scan pt current_time (prayer # rest) =
     (case pt prayer of
        None \<Rightarrow> console_scan pt current_time rest
      | Some prayer_time \<Rightarrow>
          if current_time < prayer_time then Some (prayer, prayer_time)
          else console_scan pt current_time rest)"

datatype console_next = NoTimes | Next string string string

text \<open>
  \<open>names_ar\<close> is the table of the Arabic names, \<open>items\<close> the dictionary of the time
  strings as the list of its items, \<open>enabled_prayers\<close> the list of the configuration;
  \<^verbatim>\<open>enabled_prayers[0]\<close> raises on the empty list.
\<close>

definition console_get_next_prayer ::
  "(string \<rightharpoonup> string) \<Rightarrow> (string \<times> string) list \<Rightarrow> string list \<Rightarrow> datetime
     \<Rightarrow> py_error + console_next" where
  "console_get_next_prayer names_ar items enabled_prayers now =
     (if items = [] then Inr NoTimes
      else
        (case console_scan (map_of items) (strftime_HM now) enabled_prayers of
           Some (prayer, prayer_time) \<Rightarrow>
             Inr (Next prayer (case names_ar prayer of Some a \<Rightarrow> a | None \<Rightarrow> prayer) prayer_time)
         | None \<Rightarrow>
             (case enabled_prayers of
                [] \<Rightarrow> Inl IndexError
              | first_prayer # _ \<Rightarrow>
                  Inr (Next first_prayer
                         (case names_ar first_prayer of Some a \<Rightarrow> a | None \<Rightarrow> first_prayer)
                         (case map_of items first_prayer of Some t \<Rightarrow> t | None \<Rightarrow> [])))))"

subsection \<open>Vocabulary of the statements\<close>

text \<open>
  A prayer is upcoming when it is stored and its time is later than \<open>now\<close>; it has passed
  when it is stored and its time is earlier than \<open>now\<close>. These are the two tests of the
  loops above.
\<close>

definition upcoming :: "manager \<Rightarrow> datetime \<Rightarrow> string \<Rightarrow> bool" where
  "upcoming m now p = (case prayer_times m p of None \<Rightarrow> False | Some t \<Rightarrow> dt_less now t)"

definition passed :: "manager \<Rightarrow> datetime \<Rightarrow> string \<Rightarrow> bool" where
  "passed m now p = (case prayer_times m p of None \<Rightarrow> False | Some t \<Rightarrow> dt_less t now)"

subsection \<open>The scenario of the specification\<close>

text \<open>
  The schedule of 2024-06-01 (ordinal 739038) used in the examples: Fajr 05:12,
  Dhuhr 12:30, Asr 15:45, Maghrib 18:20, Isha 19:50.
\<close>

definition at_time :: "int \<Rightarrow> int \<Rightarrow> int \<Rightarrow> int \<Rightarrow> datetime" where
  "at_time h mi s us = \<lparr>ordinal = 739038, hour = h, minute = mi, second = s, microsecond = us\<rparr>"

definition scenario :: manager where
  "scenario =
     \<lparr>prayer_times =
        [''Fajr'' \<mapsto> at_time 5 12 0 0, ''Dhuhr'' \<mapsto> at_time 12 30 0 0,
         ''Asr'' \<mapsto> at_time 15 45 0 0, ''Maghrib'' \<mapsto> at_time 18 20 0 0,
         ''Isha'' \<mapsto> at_time 19 50 0 0],
      hijri_date = ''24 Dhu al-Qadah 1445'',
      timezone = None\<rparr>"

definition dhuhr_only :: manager where
  "dhuhr_only =
     \<lparr>prayer_times = [''Dhuhr'' \<mapsto> at_time 12 30 0 0],
      hijri_date = ''24 Dhu al-Qadah 1445'',
      timezone = None\<rparr>"

text \<open>The clock of the scenario stands at 14:00.\<close>

definition two_pm :: "string option \<Rightarrow> datetime" where
  "two_pm tz = at_time 14 0 0 0"

text \<open>A response in which the Fajr entry is the empty string, and one in which it is a word.\<close>

definition blank_fajr :: api_data where
  "blank_fajr =
     \<lparr>timings = [''Fajr'' \<mapsto> [], ''Dhuhr'' \<mapsto> ''12:30'', ''Asr'' \<mapsto> ''15:45'',
                 ''Maghrib'' \<mapsto> ''18:20'', ''Isha'' \<mapsto> ''19:50''],
      hijri_day = ''24'', hijri_month_en = ''Dhu al-Qadah'', hijri_year = ''1445''\<rparr>"

definition garbled_fajr :: api_data where
  "garbled_fajr = blank_fajr\<lparr>timings := (timings blank_fajr)(''Fajr'' \<mapsto> ''soon (EET)'')\<rparr>"

text \<open>The time strings of the scenario, as the console variant stores them.\<close>

definition scenario_timings :: "string \<rightharpoonup> string" where
  "scenario_timings =
     [''Fajr'' \<mapsto> ''05:12'', ''Dhuhr'' \<mapsto> ''12:30'', ''Asr'' \<mapsto> ''15:45'',
      ''Maghrib'' \<mapsto> ''18:20'', ''Isha'' \<mapsto> ''19:50'']"

section \<open>Properties\<close>

subsection \<open>Arithmetic of instants and durations\<close>

lemma total_microseconds_timedelta_of: "total_microseconds (timedelta_of us) = us"
proof -
  define r where "r = us mod 86400000000"
  have a: "r div 1000000 * 1000000 + r mod 1000000 = r"
    by simp
  have b: "r mod 1000000 = us mod 1000000"
    unfolding r_def by (rule mod_mod_cancel) simp
  have c: "us div 86400000000 * 86400000000 + r = us"
    unfolding r_def by simp
  have "total_microseconds (timedelta_of us)
          = us div 86400000000 * 86400000000 + (r div 1000000 * 1000000 + r mod 1000000)"
    unfolding total_microseconds_def timedelta_of_def r_def b [unfolded r_def]
    by (simp add: algebra_simps)
  also have "\<dots> = us" by (simp only: a c)
  finally show ?thesis .
qed

lemma total_seconds_neg_iff: "total_seconds (timedelta_of us) < 0 \<longleftrightarrow> us < 0"
  by (simp add: total_seconds_def total_microseconds_timedelta_of divide_less_0_iff)

lemma total_seconds_pos_iff: "0 < total_seconds (timedelta_of us) \<longleftrightarrow> 0 < us"
  by (simp add: total_seconds_def total_microseconds_timedelta_of zero_less_divide_iff)

lemma abs_total_seconds_less_60:
  "\<bar>total_seconds (timedelta_of us)\<bar> < 60 \<longleftrightarrow> \<bar>us\<bar> < 60000000"
proof -
  have "\<bar>total_seconds (timedelta_of us)\<bar> = of_int \<bar>us\<bar> / 1000000"
    by (simp add: total_seconds_def total_microseconds_timedelta_of)
  also have "\<dots> < 60 \<longleftrightarrow> (of_int \<bar>us\<bar> :: rat) < of_int 60000000"
    by (simp add: divide_less_eq)
  also have "\<dots> \<longleftrightarrow> \<bar>us\<bar> < 60000000"
    by (simp only: of_int_less_iff)
  finally show ?thesis .
qed

text \<open>One level of a lexicographic comparison is a comparison of weighted sums.\<close>

lemma lex_step:
  fixes p q x y B :: int
  assumes "0 \<le> x" "x < B" "0 \<le> y" "y < B"
  shows "(p < q \<or> p = q \<and> x < y) \<longleftrightarrow> p * B + x < q * B + y"
proof -
  have B: "0 \<le> B" using assms by linarith
  consider "p < q" | "p = q" | "q < p" by linarith
  then show ?thesis
  proof cases
    case 1
    then have "p + 1 \<le> q" by simp
    then have "(p + 1) * B \<le> q * B" using B by (rule mult_right_mono)
    then have "p * B + B \<le> q * B" by (simp add: algebra_simps)
    with assms 1 show ?thesis by linarith
  next
    case 2
    then show ?thesis by simp
  next
    case 3
    then have "q + 1 \<le> p" by simp
    then have "(q + 1) * B \<le> p * B" using B by (rule mult_right_mono)
    then have "q * B + B \<le> p * B" by (simp add: algebra_simps)
    with assms 3 show ?thesis by linarith
  qed
qed

text \<open>On valid datetimes the field comparison agrees with the position on the time line.\<close>

lemma dt_less_iff_microseconds:
  assumes a: "valid_datetime a" and b: "valid_datetime b"
  shows "dt_less a b \<longleftrightarrow> to_microseconds a < to_microseconds b"
proof -
  define s1 where "s1 = second a * 1000000 + microsecond a"
  define s2 where "s2 = second b * 1000000 + microsecond b"
  define m1 where "m1 = minute a * 60000000 + s1"
  define m2 where "m2 = minute b * 60000000 + s2"
  define h1 where "h1 = hour a * 3600000000 + m1"
  define h2 where "h2 = hour b * 3600000000 + m2"
  have bs: "0 \<le> s1" "s1 < 60000000" "0 \<le> s2" "s2 < 60000000"
    using a b unfolding valid_datetime_def s1_def s2_def by linarith+
  have bm: "0 \<le> m1" "m1 < 3600000000" "0 \<le> m2" "m2 < 3600000000"
    using a b bs unfolding valid_datetime_def m1_def m2_def by linarith+
  have bh: "0 \<le> h1" "h1 < 86400000000" "0 \<le> h2" "h2 < 86400000000"
    using a b bm unfolding valid_datetime_def h1_def h2_def by linarith+
  have u: "0 \<le> microsecond a" "microsecond a < 1000000"
          "0 \<le> microsecond b" "microsecond b < 1000000"
    using a b unfolding valid_datetime_def by simp_all
  have e1: "(second a < second b \<or> second a = second b \<and> microsecond a < microsecond b)
              \<longleftrightarrow> s1 < s2"
    unfolding s1_def s2_def by (rule lex_step [OF u])
  have e2: "(minute a < minute b \<or> minute a = minute b \<and> s1 < s2) \<longleftrightarrow> m1 < m2"
    unfolding m1_def m2_def by (rule lex_step [OF bs])
  have e3: "(hour a < hour b \<or> hour a = hour b \<and> m1 < m2) \<longleftrightarrow> h1 < h2"
    unfolding h1_def h2_def by (rule lex_step [OF bm])
  have e4: "(ordinal a < ordinal b \<or> ordinal a = ordinal b \<and> h1 < h2)
              \<longleftrightarrow> ordinal a * 86400000000 + h1 < ordinal b * 86400000000 + h2"
    by (rule lex_step [OF bh])
  have ta: "to_microseconds a = ordinal a * 86400000000 + h1"
    unfolding to_microseconds_def h1_def m1_def s1_def by (simp add: algebra_simps)
  have tb: "to_microseconds b = ordinal b * 86400000000 + h2"
    unfolding to_microseconds_def h2_def m2_def s2_def by (simp add: algebra_simps)
  have "dt_less a b \<longleftrightarrow>
        (ordinal a < ordinal b \<or> ordinal a = ordinal b \<and>
          (hour a < hour b \<or> hour a = hour b \<and>
            (minute a < minute b \<or> minute a = minute b \<and>
              (second a < second b \<or>
               second a = second b \<and> microsecond a < microsecond b))))"
    unfolding dt_less_def dt_key_def by (simp only: less_prod_def' fst_conv snd_conv)
  also have "\<dots> \<longleftrightarrow> ordinal a * 86400000000 + h1 < ordinal b * 86400000000 + h2"
    by (simp only: e1 e2 e3 e4)
  finally show ?thesis by (simp only: ta tb)
qed

lemma dt_less_trans: "dt_less a b \<Longrightarrow> dt_less b c \<Longrightarrow> dt_less a c"
  unfolding dt_less_def by (rule less_trans)

lemma dt_less_asym: "dt_less a b \<Longrightarrow> \<not> dt_less b a"
  unfolding dt_less_def by simp

text \<open>The whole seconds of a duration below one day, as the \<^verbatim>\<open>seconds\<close> field holds them.\<close>

lemma seconds_timedelta_of:
  "seconds (timedelta_of us) = (us div 1000000) mod 86400"
proof -
  have split: "us mod (1000000 * 86400) = 1000000 * (us div 1000000 mod 86400) + us mod 1000000"
    by (rule zmod_zmult2_eq) simp
  have "(us mod 86400000000) div 1000000 = (us mod (1000000 * 86400)) div 1000000"
    by simp
  also have "\<dots> = (1000000 * (us div 1000000 mod 86400) + us mod 1000000) div 1000000"
    by (simp only: split)
  also have "\<dots> = (us div 1000000) mod 86400"
    by simp
  finally show ?thesis by (simp add: timedelta_of_def)
qed

lemma get_time_remaining_eq:
  "get_time_remaining now target =
     (if to_microseconds target - to_microseconds now < 0 then (0, 0, 0)
      else (((to_microseconds target - to_microseconds now) div 1000000) mod 86400 div 3600,
            ((to_microseconds target - to_microseconds now) div 1000000) mod 86400 mod 3600 div 60,
            ((to_microseconds target - to_microseconds now) div 1000000) mod 86400 mod 60))"
  unfolding get_time_remaining_def Let_def dt_sub_def
  by (simp only: total_seconds_neg_iff seconds_timedelta_of)

subsection \<open>Time remaining\<close>

text \<open>
  C3, as amended. If the target is before \<open>now\<close>, \<^verbatim>\<open>get_time_remaining\<close> returns
  \<open>(0, 0, 0)\<close>. Otherwise, when the target is less than 24 hours after \<open>now\<close>, it returns
  the whole seconds \<open>d\<close> of the duration as hours, minutes within the hour and seconds
  within the minute; the part below one second is dropped.
\<close>

theorem get_time_remaining_within_a_day:
  assumes "valid_datetime now" and "valid_datetime target"
  shows "(dt_less target now \<longrightarrow> get_time_remaining now target = (0, 0, 0)) \<and>
         (\<not> dt_less target now \<longrightarrow>
          to_microseconds target - to_microseconds now < 86400 * 1000000 \<longrightarrow>
          get_time_remaining now target =
            ((to_microseconds target - to_microseconds now) div 1000000 div 3600,
             (to_microseconds target - to_microseconds now) div 1000000 mod 3600 div 60,
             (to_microseconds target - to_microseconds now) div 1000000 mod 60))"
proof -
  define us where "us = to_microseconds target - to_microseconds now"
  define d where "d = us div 1000000"
  have neg: "dt_less target now \<longleftrightarrow> us < 0"
    unfolding us_def using dt_less_iff_microseconds [OF assms(2) assms(1)] by linarith
  have small: "d mod 86400 = d" if "\<not> us < 0" "us < 86400 * 1000000"
  proof -
    have "0 \<le> d" using that(1) unfolding d_def by (simp add: pos_imp_zdiv_nonneg_iff)
    moreover have "d < 86400" using that(2) unfolding d_def by (simp add: div_less_iff_less_mult)
    ultimately show ?thesis by simp
  qed
  have eq: "get_time_remaining now target =
              (if us < 0 then (0, 0, 0)
               else (d mod 86400 div 3600, d mod 86400 mod 3600 div 60, d mod 86400 mod 60))"
    unfolding us_def d_def by (rule get_time_remaining_eq)
  show ?thesis
    unfolding us_def [symmetric] d_def [symmetric] neg eq
    using small by simp
qed

text \<open>Three hours, 25 minutes and 10 seconds ahead; and a target that has passed.\<close>

theorem get_time_remaining_within_a_day_witness:
  "valid_datetime (at_time 14 0 0 0) \<and> valid_datetime (at_time 17 25 10 0) \<and>
   get_time_remaining (at_time 14 0 0 0) (at_time 17 25 10 0) = (3, 25, 10) \<and>
   get_time_remaining (at_time 17 25 10 0) (at_time 14 0 0 0) = (0, 0, 0)"
proof -
  have v1: "valid_datetime (at_time 14 0 0 0)" and v2: "valid_datetime (at_time 17 25 10 0)"
    by (simp_all add: valid_datetime_def at_time_def)
  have l: "\<not> dt_less (at_time 17 25 10 0) (at_time 14 0 0 0)"
          "dt_less (at_time 14 0 0 0) (at_time 17 25 10 0)"
    by (simp_all add: dt_less_def dt_key_def at_time_def)
  have a: "get_time_remaining (at_time 14 0 0 0) (at_time 17 25 10 0) = (3, 25, 10)"
    using get_time_remaining_within_a_day [OF v1 v2] l
    by (simp add: to_microseconds_def at_time_def)
  have b: "get_time_remaining (at_time 17 25 10 0) (at_time 14 0 0 0) = (0, 0, 0)"
    using get_time_remaining_within_a_day [OF v2 v1] l by simp
  show ?thesis using v1 v2 a b by simp
qed

text \<open>
  C3 as written fails for a target 24 hours or more ahead: 25 hours before the target
  the result is one hour, although the duration has 25 whole hours.
\<close>

theorem get_time_remaining_counterexample:
  "\<not> dt_less (add_days (at_time 15 0 0 0) 1) (at_time 14 0 0 0) \<and>
   (to_microseconds (add_days (at_time 15 0 0 0) 1) - to_microseconds (at_time 14 0 0 0))
      div 1000000 div 3600 = 25 \<and>
   get_time_remaining (at_time 14 0 0 0) (add_days (at_time 15 0 0 0) 1) = (1, 0, 0)"
  by (simp add: get_time_remaining_eq to_microseconds_def add_days_def at_time_def
        dt_less_def dt_key_def)

text \<open>
  C9. Whatever \<open>now\<close> and the target are, the hours returned lie in 0..23 and the minutes
  and seconds in 0..59: only the part of the difference below one day is decomposed.
\<close>

theorem get_time_remaining_bounded:
  "(case get_time_remaining now target of
      (h, mi, s) \<Rightarrow> 0 \<le> h \<and> h \<le> 23 \<and> 0 \<le> mi \<and> mi \<le> 59 \<and> 0 \<le> s \<and> s \<le> 59)"
proof -
  define d where "d = ((to_microseconds target - to_microseconds now) div 1000000) mod 86400"
  have d: "0 \<le> d" "d < 86400" unfolding d_def by simp_all
  have "d div 3600 \<le> 86399 div 3600"
    by (rule zdiv_mono1) (use d in simp_all)
  then have h: "0 \<le> d div 3600" "d div 3600 \<le> 23"
    using d by (simp_all add: pos_imp_zdiv_nonneg_iff)
  have "get_time_remaining now target =
          (if to_microseconds target - to_microseconds now < 0 then (0, 0, 0)
           else (d div 3600, d mod 3600 div 60, d mod 60))"
    unfolding d_def by (rule get_time_remaining_eq)
  moreover have "d mod 3600 div 60 \<le> 3599 div 60"
    by (rule zdiv_mono1) simp_all
  moreover have "d mod 60 \<le> 59"
    using pos_mod_bound [of 60 d] by linarith
  ultimately show ?thesis using h by (simp add: pos_imp_zdiv_nonneg_iff)
qed

text \<open>A target 49 hours and 30 seconds ahead: one hour and 30 seconds are reported.\<close>

theorem get_time_remaining_bounded_witness:
  "get_time_remaining (at_time 14 0 0 0) (add_days (at_time 15 0 30 0) 2) = (1, 0, 30) \<and>
   (case get_time_remaining (at_time 14 0 0 0) (add_days (at_time 15 0 30 0) 2) of
      (h, mi, s) \<Rightarrow> 0 \<le> h \<and> h \<le> 23 \<and> 0 \<le> mi \<and> mi \<le> 59 \<and> 0 \<le> s \<and> s \<le> 59)"
proof -
  have "get_time_remaining (at_time 14 0 0 0) (add_days (at_time 15 0 30 0) 2) = (1, 0, 30)"
    by (simp add: get_time_remaining_eq to_microseconds_def add_days_def at_time_def)
  then show ?thesis
    using get_time_remaining_bounded [of "at_time 14 0 0 0" "add_days (at_time 15 0 30 0) 2"]
    by simp
qed

subsection \<open>The prayer-time window\<close>

text \<open>
  C4. \<^verbatim>\<open>is_prayer_time\<close> holds exactly when the prayer is stored and \<open>now\<close> is less than
  60 seconds away from its time, on either side.
\<close>

theorem is_prayer_time_iff:
  "is_prayer_time m prayer now \<longleftrightarrow>
     (\<exists>t. prayer_times m prayer = Some t \<and>
          \<bar>to_microseconds now - to_microseconds t\<bar> < 60 * 1000000)"
  unfolding is_prayer_time_def dt_sub_def
  by (simp add: abs_total_seconds_less_60 split: option.split)

text \<open>Dhuhr at 12:30: 59 seconds either side, 61 seconds either side, and an unknown name.\<close>

theorem is_prayer_time_iff_witness:
  "is_prayer_time scenario ''Dhuhr'' (at_time 12 30 59 0) \<and>
   is_prayer_time scenario ''Dhuhr'' (at_time 12 29 1 0) \<and>
   \<not> is_prayer_time scenario ''Dhuhr'' (at_time 12 31 1 0) \<and>
   \<not> is_prayer_time scenario ''Dhuhr'' (at_time 12 28 59 0) \<and>
   \<not> is_prayer_time scenario ''Witr'' (at_time 12 30 0 0)"
proof -
  have d: "prayer_times scenario ''Dhuhr'' = Some (at_time 12 30 0 0)"
          "prayer_times scenario ''Witr'' = None"
    by (simp_all add: scenario_def)
  show ?thesis
    unfolding is_prayer_time_iff d
    by (simp add: to_microseconds_def at_time_def)
qed

subsection \<open>The next prayer\<close>

lemma scan_next_find:
  "scan_next (prayer_times m) now ps =
     (case find (upcoming m now) ps of
        None \<Rightarrow> None
      | Some p \<Rightarrow> Some (p, the (prayer_times m p)))"
  by (induction ps) (auto simp: upcoming_def split: option.splits)

lemma scan_next_none:
  "\<forall>p\<in>set ps. \<not> upcoming m now p \<Longrightarrow> scan_next (prayer_times m) now ps = None"
  by (induction ps) (auto simp: upcoming_def split: option.splits)

lemma get_next_prayer_find:
  assumes "find (upcoming m now) PRAYERS = Some p"
  shows "\<exists>t. prayer_times m p = Some t \<and> dt_less now t \<and> get_next_prayer m now = Some (p, t)"
proof -
  from assms have "upcoming m now p"
    by (auto simp: find_Some_iff)
  then obtain t where t: "prayer_times m p = Some t" "dt_less now t"
    by (auto simp: upcoming_def split: option.splits)
  have "get_next_prayer m now = Some (p, t)"
    unfolding get_next_prayer_def scan_next_find assms using t by simp
  with t show ?thesis by blast
qed

lemma get_next_prayer_increasing:
  assumes s: "prayer_times m ''Fajr'' = Some t1" "prayer_times m ''Dhuhr'' = Some t2"
             "prayer_times m ''Asr'' = Some t3" "prayer_times m ''Maghrib'' = Some t4"
             "prayer_times m ''Isha'' = Some t5"
    and inc: "dt_less t1 t2" "dt_less t2 t3" "dt_less t3 t4" "dt_less t4 t5"
    and now: "dt_less t1 now" "dt_less now t5"
  shows "\<exists>p t. get_next_prayer m now = Some (p, t) \<and> p \<in> set PRAYERS \<and>
           prayer_times m p = Some t \<and> dt_less now t \<and>
           (\<forall>q\<in>set PRAYERS. \<forall>t'. prayer_times m q = Some t' \<and> dt_less now t' \<longrightarrow> \<not> dt_less t' t)"
proof -
  define k1 k2 k3 k4 k5 kn
    where "k1 = dt_key t1" and "k2 = dt_key t2" and "k3 = dt_key t3"
      and "k4 = dt_key t4" and "k5 = dt_key t5" and "kn = dt_key now"
  note ks = k1_def k2_def k3_def k4_def k5_def kn_def
  have ord: "k1 < k2" "k2 < k3" "k3 < k4" "k4 < k5" "k1 < kn" "kn < k5"
    using inc now unfolding ks dt_less_def by simp_all
  have l: "dt_less now t1 = (kn < k1)" "dt_less now t2 = (kn < k2)" "dt_less now t3 = (kn < k3)"
          "dt_less now t4 = (kn < k4)" "dt_less now t5 = (kn < k5)"
          "\<And>a b. dt_less t1 a = (k1 < dt_key a)" "\<And>a. dt_less t2 a = (k2 < dt_key a)"
          "\<And>a. dt_less t3 a = (k3 < dt_key a)" "\<And>a. dt_less t4 a = (k4 < dt_key a)"
          "\<And>a. dt_less t5 a = (k5 < dt_key a)"
    unfolding ks dt_less_def by simp_all
  have nl: "\<not> k2 < k1" "\<not> k3 < k1" "\<not> k4 < k1" "\<not> k5 < k1" "\<not> k3 < k2" "\<not> k4 < k2"
            "\<not> k5 < k2" "\<not> k4 < k3" "\<not> k5 < k3" "\<not> k5 < k4" "\<not> kn < k1"
    using ord by order+
  consider (two) "kn < k2" | (three) "\<not> kn < k2" "kn < k3" | (four) "\<not> kn < k3" "kn < k4"
    | (five) "\<not> kn < k4"
    by blast
  then show ?thesis
  proof cases
    case two
    have c: "kn < k2" "kn < k3" "kn < k4" "kn < k5"
      using ord two by order+
    have "get_next_prayer m now = Some (''Dhuhr'', t2)"
      unfolding get_next_prayer_def PRAYERS_def using s c nl by (simp add: l)
    moreover have "\<forall>q\<in>set PRAYERS. \<forall>t'. prayer_times m q = Some t' \<and> dt_less now t' \<longrightarrow> \<not> dt_less t' t2"
      unfolding PRAYERS_def using s c nl by (simp add: l ks [symmetric])
    ultimately show ?thesis using s c by (simp add: l PRAYERS_def)
  next
    case three
    have c: "\<not> kn < k2" "kn < k3" "kn < k4" "kn < k5"
      using ord three by order+
    have "get_next_prayer m now = Some (''Asr'', t3)"
      unfolding get_next_prayer_def PRAYERS_def using s c nl by (simp add: l)
    moreover have "\<forall>q\<in>set PRAYERS. \<forall>t'. prayer_times m q = Some t' \<and> dt_less now t' \<longrightarrow> \<not> dt_less t' t3"
      unfolding PRAYERS_def using s c nl by (simp add: l ks [symmetric])
    ultimately show ?thesis using s c by (simp add: l PRAYERS_def)
  next
    case four
    have c: "\<not> kn < k2" "\<not> kn < k3" "kn < k4" "kn < k5"
      using ord four by order+
    have "get_next_prayer m now = Some (''Maghrib'', t4)"
      unfolding get_next_prayer_def PRAYERS_def using s c nl by (simp add: l)
    moreover have "\<forall>q\<in>set PRAYERS. \<forall>t'. prayer_times m q = Some t' \<and> dt_less now t' \<longrightarrow> \<not> dt_less t' t4"
      unfolding PRAYERS_def using s c nl by (simp add: l ks [symmetric])
    ultimately show ?thesis using s c by (simp add: l PRAYERS_def)
  next
    case five
    have c: "\<not> kn < k2" "\<not> kn < k3" "\<not> kn < k4" "kn < k5"
      using ord five by order+
    have "get_next_prayer m now = Some (''Isha'', t5)"
      unfolding get_next_prayer_def PRAYERS_def using s c nl by (simp add: l)
    moreover have "\<forall>q\<in>set PRAYERS. \<forall>t'. prayer_times m q = Some t' \<and> dt_less now t' \<longrightarrow> \<not> dt_less t' t5"
      unfolding PRAYERS_def using s c nl by (simp add: l ks [symmetric])
    ultimately show ?thesis using s c by (simp add: l PRAYERS_def)
  qed
qed

text \<open>
  C1. \<^verbatim>\<open>get_next_prayer\<close> returns the first prayer, in the order Fajr, Dhuhr, Asr,
  Maghrib, Isha, that is stored with a time strictly after \<open>now\<close>. When all five are stored
  with strictly increasing times and \<open>now\<close> lies strictly between Fajr and Isha, the prayer
  returned is the upcoming one: its time is after \<open>now\<close> and no stored time after \<open>now\<close> is
  earlier.
\<close>

theorem get_next_prayer_first_upcoming:
  "(find (upcoming m now) PRAYERS = Some p \<longrightarrow>
      (\<exists>t. prayer_times m p = Some t \<and> dt_less now t \<and> get_next_prayer m now = Some (p, t))) \<and>
   (prayer_times m ''Fajr'' = Some t1 \<and> prayer_times m ''Dhuhr'' = Some t2 \<and>
    prayer_times m ''Asr'' = Some t3 \<and> prayer_times m ''Maghrib'' = Some t4 \<and>
    prayer_times m ''Isha'' = Some t5 \<and>
    dt_less t1 t2 \<and> dt_less t2 t3 \<and> dt_less t3 t4 \<and> dt_less t4 t5 \<and>
    dt_less t1 now \<and> dt_less now t5 \<longrightarrow>
      (\<exists>q t. get_next_prayer m now = Some (q, t) \<and> q \<in> set PRAYERS \<and>
         prayer_times m q = Some t \<and> dt_less now t \<and>
         (\<forall>r\<in>set PRAYERS. \<forall>t'. prayer_times m r = Some t' \<and> dt_less now t' \<longrightarrow> \<not> dt_less t' t)))"
  using get_next_prayer_find [of m now p] get_next_prayer_increasing [of m t1 t2 t3 t4 t5 now]
  by blast

text \<open>The scenario at 14:00: Asr at 15:45 is next.\<close>

theorem get_next_prayer_first_upcoming_witness:
  "find (upcoming scenario (at_time 14 0 0 0)) PRAYERS = Some ''Asr'' \<and>
   prayer_times scenario ''Fajr'' = Some (at_time 5 12 0 0) \<and>
   prayer_times scenario ''Dhuhr'' = Some (at_time 12 30 0 0) \<and>
   prayer_times scenario ''Asr'' = Some (at_time 15 45 0 0) \<and>
   prayer_times scenario ''Maghrib'' = Some (at_time 18 20 0 0) \<and>
   prayer_times scenario ''Isha'' = Some (at_time 19 50 0 0) \<and>
   dt_less (at_time 5 12 0 0) (at_time 12 30 0 0) \<and>
   dt_less (at_time 12 30 0 0) (at_time 15 45 0 0) \<and>
   dt_less (at_time 15 45 0 0) (at_time 18 20 0 0) \<and>
   dt_less (at_time 18 20 0 0) (at_time 19 50 0 0) \<and>
   dt_less (at_time 5 12 0 0) (at_time 14 0 0 0) \<and>
   dt_less (at_time 14 0 0 0) (at_time 19 50 0 0) \<and>
   get_next_prayer scenario (at_time 14 0 0 0) = Some (''Asr'', at_time 15 45 0 0)"
proof -
  have f: "find (upcoming scenario (at_time 14 0 0 0)) PRAYERS = Some ''Asr''"
    by (simp add: upcoming_def scenario_def PRAYERS_def dt_less_def dt_key_def at_time_def)
  have s: "prayer_times scenario ''Asr'' = Some (at_time 15 45 0 0)"
    by (simp add: scenario_def)
  have "get_next_prayer scenario (at_time 14 0 0 0) = Some (''Asr'', at_time 15 45 0 0)"
    using get_next_prayer_first_upcoming [of scenario "at_time 14 0 0 0" "''Asr''"] f s
    by auto
  then show ?thesis
    using f by (simp add: scenario_def dt_less_def dt_key_def at_time_def)
qed

text \<open>
  C2. When Fajr is stored and \<open>now\<close> is after every stored time of the five prayers,
  \<^verbatim>\<open>get_next_prayer\<close> returns Fajr with the stored Fajr time moved one day on: the same
  time of day, 24 hours later on the time line.
\<close>

theorem get_next_prayer_after_last:
  assumes "prayer_times m ''Fajr'' = Some fajr"
    and "\<forall>p\<in>set PRAYERS. \<forall>t. prayer_times m p = Some t \<longrightarrow> dt_less t now"
  shows "get_next_prayer m now = Some (''Fajr'', add_days fajr 1) \<and>
         to_microseconds (add_days fajr 1) = to_microseconds fajr + 24 * 3600 * 1000000 \<and>
         add_days fajr 1 = fajr\<lparr>ordinal := ordinal fajr + 1\<rparr>"
proof -
  have "\<forall>p\<in>set PRAYERS. \<not> upcoming m now p"
    using assms(2) by (auto simp: upcoming_def dest: dt_less_asym split: option.splits)
  then have "scan_next (prayer_times m) now PRAYERS = None"
    by (rule scan_next_none)
  then have "get_next_prayer m now = Some (''Fajr'', add_days fajr 1)"
    unfolding get_next_prayer_def using assms(1) by simp
  moreover have "to_microseconds (add_days fajr 1) = to_microseconds fajr + 24 * 3600 * 1000000"
    by (simp add: to_microseconds_def add_days_def algebra_simps)
  ultimately show ?thesis by (simp add: add_days_def)
qed

text \<open>The scenario at 21:00, after Isha: Fajr of 2024-06-02 at 05:12.\<close>

theorem get_next_prayer_after_last_witness:
  "prayer_times scenario ''Fajr'' = Some (at_time 5 12 0 0) \<and>
   list_all (\<lambda>p. case prayer_times scenario p of
                    None \<Rightarrow> True
                  | Some t \<Rightarrow> dt_less t (at_time 21 0 0 0)) PRAYERS \<and>
   get_next_prayer scenario (at_time 21 0 0 0) =
     Some (''Fajr'', \<lparr>ordinal = 739039, hour = 5, minute = 12, second = 0, microsecond = 0\<rparr>)"
proof -
  have f: "prayer_times scenario ''Fajr'' = Some (at_time 5 12 0 0)"
    by (simp add: scenario_def)
  have a: "\<forall>p\<in>set PRAYERS. \<forall>t. prayer_times scenario p = Some t \<longrightarrow> dt_less t (at_time 21 0 0 0)"
    by (simp add: scenario_def PRAYERS_def dt_less_def dt_key_def at_time_def)
  have l: "list_all (\<lambda>p. case prayer_times scenario p of
                    None \<Rightarrow> True
                  | Some t \<Rightarrow> dt_less t (at_time 21 0 0 0)) PRAYERS"
    by (simp add: scenario_def PRAYERS_def dt_less_def dt_key_def at_time_def)
  show ?thesis
    using get_next_prayer_after_last [OF f a] f l
    by (simp add: add_days_def at_time_def)
qed

text \<open>
  C6. When Fajr is not stored and \<open>now\<close> is after every stored time, \<^verbatim>\<open>get_next_prayer\<close>
  returns \<^verbatim>\<open>None\<close>; the method has no path that raises.
\<close>

theorem get_next_prayer_no_fajr:
  assumes "prayer_times m ''Fajr'' = None"
    and "\<forall>p\<in>set PRAYERS. \<forall>t. prayer_times m p = Some t \<longrightarrow> dt_less t now"
  shows "get_next_prayer m now = None"
proof -
  have "\<forall>p\<in>set PRAYERS. \<not> upcoming m now p"
    using assms(2) by (auto simp: upcoming_def dest: dt_less_asym split: option.splits)
  then have "scan_next (prayer_times m) now PRAYERS = None"
    by (rule scan_next_none)
  then show ?thesis
    unfolding get_next_prayer_def using assms(1) by simp
qed

text \<open>Only Dhuhr at 12:30 is stored; at 13:00 there is no next prayer.\<close>

theorem get_next_prayer_no_fajr_witness:
  "prayer_times dhuhr_only ''Fajr'' = None \<and>
   prayer_times dhuhr_only ''Dhuhr'' = Some (at_time 12 30 0 0) \<and>
   dt_less (at_time 12 30 0 0) (at_time 13 0 0 0) \<and>
   get_next_prayer dhuhr_only (at_time 13 0 0 0) = None"
proof -
  have f: "prayer_times dhuhr_only ''Fajr'' = None"
    by (simp add: dhuhr_only_def)
  have a: "\<forall>p\<in>set PRAYERS. \<forall>t. prayer_times dhuhr_only p = Some t \<longrightarrow> dt_less t (at_time 13 0 0 0)"
    by (simp add: dhuhr_only_def PRAYERS_def dt_less_def dt_key_def at_time_def)
  show ?thesis
    using get_next_prayer_no_fajr [OF f a]
    by (simp add: dhuhr_only_def dt_less_def dt_key_def at_time_def)
qed

subsection \<open>The progress window\<close>

text \<open>What the loop over the reversed list computes.\<close>

lemma scan_prev_find:
  "scan_prev (prayer_times m) now ps prev =
     (case find (passed m now) ps of
        None \<Rightarrow> prev
      | Some p \<Rightarrow> the (prayer_times m p))"
  by (induction ps) (auto simp: passed_def split: option.splits)

lemma prev_prayer_time_find:
  "prev_prayer_time m now =
     (case find (passed m now) REVERSED of
        None \<Rightarrow> now\<lparr>hour := 0, minute := 0, second := 0\<rparr>
      | Some p \<Rightarrow> the (prayer_times m p))"
  unfolding prev_prayer_time_def by (rule scan_prev_find)

text \<open>The fraction, in microseconds on the time line.\<close>

lemma total_seconds_quotient:
  "total_seconds (timedelta_of a) / total_seconds (timedelta_of b) = of_int a / of_int b"
  by (simp add: total_seconds_def total_microseconds_timedelta_of)

lemma progress_of_eq:
  "progress_of now prev prayer_time =
     (if 0 < to_microseconds prayer_time - to_microseconds prev
      then min 1 (max 0 (of_int (to_microseconds now - to_microseconds prev) /
                         of_int (to_microseconds prayer_time - to_microseconds prev)))
      else 0)"
  unfolding progress_of_def Let_def dt_sub_def total_seconds_quotient
  by (simp add: total_seconds_pos_iff)

text \<open>
  C5 is not what the code does when no prayer has passed. The start value
  \<^verbatim>\<open>now.replace(hour=0, minute=0, second=0)\<close> keeps the microseconds of \<open>now\<close>, while
  \<^verbatim>\<open>update\<close> clears them with \<^verbatim>\<open>microsecond=0\<close>. At 03:00:00.5 of the scenario, before
  Fajr, the window starts at 00:00:00.5 and not at midnight, and the fraction is
  \<open>21600/37439\<close>; from midnight it would be \<open>21601/37440\<close>.
\<close>

theorem progress_window_start_keeps_microseconds:
  "find (passed scenario (at_time 3 0 0 500000)) REVERSED = None \<and>
   progress_window scenario (at_time 3 0 0 500000) =
     Some (at_time 0 0 0 500000, at_time 5 12 0 0, 21600 / 37439) \<and>
   at_time 0 0 0 500000 \<noteq> at_time 0 0 0 0 \<and>
   progress_of (at_time 3 0 0 500000) (at_time 0 0 0 0) (at_time 5 12 0 0) = 21601 / 37440"
proof -
  have f: "find (passed scenario (at_time 3 0 0 500000)) REVERSED = None"
    by (simp add: passed_def scenario_def REVERSED_def dt_less_def dt_key_def at_time_def)
  have n: "get_next_prayer scenario (at_time 3 0 0 500000) = Some (''Fajr'', at_time 5 12 0 0)"
    by (simp add: get_next_prayer_def scenario_def PRAYERS_def dt_less_def dt_key_def at_time_def)
  have p: "prev_prayer_time scenario (at_time 3 0 0 500000) = at_time 0 0 0 500000"
    unfolding prev_prayer_time_find f by (simp add: at_time_def)
  have r: "progress_of (at_time 3 0 0 500000) (at_time 0 0 0 500000) (at_time 5 12 0 0)
             = 21600 / 37439"
    by (simp add: progress_of_eq to_microseconds_def at_time_def)
  have r': "progress_of (at_time 3 0 0 500000) (at_time 0 0 0 0) (at_time 5 12 0 0)
             = 21601 / 37440"
    by (simp add: progress_of_eq to_microseconds_def at_time_def)
  have w: "progress_window scenario (at_time 3 0 0 500000) =
             Some (at_time 0 0 0 500000, at_time 5 12 0 0, 21600 / 37439)"
    unfolding progress_window_def n p by (simp add: r)
  have d: "at_time 0 0 0 500000 \<noteq> at_time 0 0 0 0"
    by (simp add: at_time_def)
  show ?thesis using f w d r' by simp
qed

subsection \<open>Refreshing the schedule\<close>

text \<open>
  An entry that is a word but no time is left out and the update succeeds: the \<^verbatim>\<open>try\<close>
  catches the failure of the conversion.
\<close>

lemma update_garbled_entry_omitted:
  "\<exists>m'. update (\<lambda>_. None) None scenario (Some garbled_fajr) (at_time 0 5 0 0) = Inr (True, m') \<and>
        map (prayer_times m') PRAYERS =
          [None, Some (at_time 12 30 0 0), Some (at_time 15 45 0 0),
           Some (at_time 18 20 0 0), Some (at_time 19 50 0 0)]"
  by (simp add: update_def garbled_fajr_def blank_fajr_def PRAYERS_def split_def is_space_def
        parse_time_def py_int_def strip_def int_unsigned_def is_digit_def digit_value_def
        at_time_def)

text \<open>
  C7 is not what the code does for an entry without any word. \<^verbatim>\<open>"".split()\<close> is the empty
  list and \<^verbatim>\<open>[0]\<close> raises \<^verbatim>\<open>IndexError\<close> before the \<^verbatim>\<open>try\<close> is entered: the update is
  aborted, nothing is returned, and the dictionary of the manager, emptied at the start of
  the loop, stays empty although the four other entries are well formed.
\<close>

theorem update_blank_entry_raises:
  "split [] = [] \<and>
   update (\<lambda>_. None) None scenario (Some blank_fajr) (at_time 0 5 0 0) =
     Inl (IndexError, scenario\<lparr>prayer_times := Map.empty\<rparr>)"
  by (simp add: update_def blank_fajr_def PRAYERS_def split_def scenario_def)

subsection \<open>The console variant against the datetime comparison\<close>

text \<open>Digits and their characters.\<close>

lemma of_char_digit_char:
  assumes "0 \<le> d" "d < 10"
  shows "(of_char (digit_char d) :: nat) = 48 + nat d"
proof -
  have "48 + d = int (48 + nat d)" using assms by simp
  then have "digit_char d = char_of (48 + nat d)"
    unfolding digit_char_def by (simp only: char_of_nat)
  then have "(of_char (digit_char d) :: nat) = (48 + nat d) mod 256"
    by (simp only: of_char_of)
  also have "\<dots> = 48 + nat d" using assms by simp
  finally show ?thesis .
qed

lemma digit_char_less_iff:
  assumes "0 \<le> d" "d < 10" "0 \<le> e" "e < 10"
  shows "digit_char d < digit_char e \<longleftrightarrow> d < e"
  using assms by (simp add: less_char_def of_char_digit_char) linarith

lemma digit_char_eq_iff:
  assumes "0 \<le> d" "d < 10" "0 \<le> e" "e < 10"
  shows "digit_char d = digit_char e \<longleftrightarrow> d = e"
proof
  assume "digit_char d = digit_char e"
  then have "(of_char (digit_char d) :: nat) = of_char (digit_char e)" by simp
  with assms show "d = e" by (simp add: of_char_digit_char)
qed simp

lemma digit_char_props:
  assumes "0 \<le> d" "d < 10"
  shows "is_digit (digit_char d)" "digit_value (digit_char d) = d" "\<not> is_space (digit_char d)"
    "digit_char d \<noteq> CHR '':''" "digit_char d \<noteq> CHR ''-''" "digit_char d \<noteq> CHR ''+''"
    "digit_char d \<noteq> CHR ''_''"
proof -
  note c = of_char_digit_char [OF assms]
  show "is_digit (digit_char d)" using assms by (simp add: is_digit_def c)
  show "digit_value (digit_char d) = d" using assms by (simp add: digit_value_def c)
  show "\<not> is_space (digit_char d)" using assms by (simp add: is_space_def c) linarith
  show "digit_char d \<noteq> CHR '':''"
  proof
    assume "digit_char d = CHR '':''"
    then have "(of_char (digit_char d) :: nat) = of_char CHR '':''" by simp
    then show False using assms by (simp add: c)
  qed
  show "digit_char d \<noteq> CHR ''-''"
  proof
    assume "digit_char d = CHR ''-''"
    then have "(of_char (digit_char d) :: nat) = of_char CHR ''-''" by simp
    then show False using assms by (simp add: c)
  qed
  show "digit_char d \<noteq> CHR ''+''"
  proof
    assume "digit_char d = CHR ''+''"
    then have "(of_char (digit_char d) :: nat) = of_char CHR ''+''" by simp
    then show False using assms by (simp add: c)
  qed
  show "digit_char d \<noteq> CHR ''_''"
  proof
    assume "digit_char d = CHR ''_''"
    then have "(of_char (digit_char d) :: nat) = of_char CHR ''_''" by simp
    then show False using assms by (simp add: c)
  qed
qed

lemma two_digits_less_iff:
  assumes "0 \<le> a" "a < 100" "0 \<le> b" "b < 100"
  shows "two_digits a < two_digits b \<longleftrightarrow> a < b"
proof -
  have d: "0 \<le> a div 10" "a div 10 < 10" "0 \<le> b div 10" "b div 10 < 10"
    using assms by simp_all
  have m: "0 \<le> a mod 10" "a mod 10 < 10" "0 \<le> b mod 10" "b mod 10 < 10"
    by simp_all
  have "two_digits a < two_digits b \<longleftrightarrow>
        (a div 10 < b div 10 \<or> a div 10 = b div 10 \<and> a mod 10 < b mod 10)"
    unfolding two_digits_def
    by (simp add: digit_char_less_iff [OF d] digit_char_eq_iff [OF d] digit_char_less_iff [OF m])
  also have "\<dots> \<longleftrightarrow> a div 10 * 10 + a mod 10 < b div 10 * 10 + b mod 10"
    by (rule lex_step [OF m])
  also have "\<dots> \<longleftrightarrow> a < b" by simp
  finally show ?thesis .
qed

lemma two_digits_eq_iff:
  assumes "0 \<le> a" "a < 100" "0 \<le> b" "b < 100"
  shows "two_digits a = two_digits b \<longleftrightarrow> a = b"
proof -
  have d: "0 \<le> a div 10" "a div 10 < 10" "0 \<le> b div 10" "b div 10 < 10"
    using assms by simp_all
  have m: "0 \<le> a mod 10" "a mod 10 < 10" "0 \<le> b mod 10" "b mod 10 < 10"
    by simp_all
  have "two_digits a = two_digits b \<longleftrightarrow> (a div 10 = b div 10 \<and> a mod 10 = b mod 10)"
    unfolding two_digits_def
    by (simp add: digit_char_eq_iff [OF d] digit_char_eq_iff [OF m])
  also have "\<dots> \<longleftrightarrow> a = b"
  proof
    assume h: "a div 10 = b div 10 \<and> a mod 10 = b mod 10"
    have "a = a div 10 * 10 + a mod 10" by simp
    also have "\<dots> = b div 10 * 10 + b mod 10" using h by simp
    also have "\<dots> = b" by simp
    finally show "a = b" .
  qed simp
  finally show ?thesis .
qed

text \<open>Comparing two zero-padded \<^verbatim>\<open>HH:MM\<close> strings is comparing hours, then minutes.\<close>

lemma hhmm_less_iff:
  assumes "0 \<le> h" "h < 100" "0 \<le> h'" "h' < 100" "0 \<le> mi" "mi < 100" "0 \<le> mi'" "mi' < 100"
  shows "hhmm h mi < hhmm h' mi' \<longleftrightarrow> h < h' \<or> h = h' \<and> mi < mi'"
proof -
  obtain a b where ab: "two_digits h = [a, b]" by (simp add: two_digits_def)
  obtain a' b' where ab': "two_digits h' = [a', b']" by (simp add: two_digits_def)
  have "hhmm h mi < hhmm h' mi'
          \<longleftrightarrow> two_digits h < two_digits h' \<or>
              two_digits h = two_digits h' \<and> two_digits mi < two_digits mi'"
    unfolding hhmm_def ab ab' by auto
  then show ?thesis
    by (simp only: two_digits_less_iff [OF assms(1-4)] two_digits_eq_iff [OF assms(1-4)]
          two_digits_less_iff [OF assms(5-8)])
qed

text \<open>A time of the day of \<open>now\<close> with zero seconds is later than \<open>now\<close> exactly when its hour and minute are.\<close>

lemma dt_less_replace_iff:
  assumes "valid_datetime now" "ordinal d = ordinal now"
  shows "dt_less now (d\<lparr>hour := h, minute := mi, second := 0, microsecond := 0\<rparr>)
           \<longleftrightarrow> hour now < h \<or> hour now = h \<and> minute now < mi"
  using assms unfolding dt_less_def dt_key_def valid_datetime_def
  by (simp add: less_prod_def')

lemma two_digits_parts:
  fixes n :: int
  assumes "0 \<le> n" "n < 100"
  shows "0 \<le> n div 10" "n div 10 < 10" "0 \<le> n mod 10" "n mod 10 < 10"
  using assms by simp_all

lemma py_int_two_digits:
  assumes "0 \<le> n" "n < 100"
  shows "py_int (two_digits n) = Some n"
proof -
  note p = two_digits_parts [OF assms]
  note a = digit_char_props [OF p(1,2)]
  note b = digit_char_props [OF p(3,4)]
  have "strip (two_digits n) = two_digits n"
    unfolding strip_def two_digits_def using a(3) b(3) by simp
  then show ?thesis
    unfolding py_int_def int_unsigned_def two_digits_def [symmetric]
    unfolding two_digits_def
    using a b by simp
qed

lemma split_on_hhmm:
  assumes "0 \<le> h" "h < 100" "0 \<le> mi" "mi < 100"
  shows "split_on CHR '':'' [] (hhmm h mi) = [two_digits h, two_digits mi]"
proof -
  note a = digit_char_props [OF two_digits_parts(1,2) [OF assms(1,2)]]
  note b = digit_char_props [OF two_digits_parts(3,4) [OF assms(1,2)]]
  note c = digit_char_props [OF two_digits_parts(1,2) [OF assms(3,4)]]
  note d = digit_char_props [OF two_digits_parts(3,4) [OF assms(3,4)]]
  show ?thesis
    unfolding hhmm_def two_digits_def using a(4) b(4) c(4) d(4) by simp
qed

lemma split_hhmm:
  assumes "0 \<le> h" "h < 100" "0 \<le> mi" "mi < 100"
  shows "split (hhmm h mi) = [hhmm h mi]"
proof -
  note a = digit_char_props [OF two_digits_parts(1,2) [OF assms(1,2)]]
  note b = digit_char_props [OF two_digits_parts(3,4) [OF assms(1,2)]]
  note c = digit_char_props [OF two_digits_parts(1,2) [OF assms(3,4)]]
  note d = digit_char_props [OF two_digits_parts(3,4) [OF assms(3,4)]]
  have s: "\<not> is_space CHR '':''" by (simp add: is_space_def)
  show ?thesis
    unfolding split_def hhmm_def two_digits_def using a(3) b(3) c(3) d(3) s by simp
qed

lemma parse_time_hhmm:
  assumes "0 \<le> h" "h < 24" "0 \<le> mi" "mi < 60"
  shows "parse_time d (hhmm h mi)
           = Some (d\<lparr>hour := h, minute := mi, second := 0, microsecond := 0\<rparr>)"
proof -
  have b: "h < 100" "mi < 100" using assms by simp_all
  show ?thesis
    unfolding parse_time_def split_on_hhmm [OF assms(1) b(1) assms(3) b(2)]
    using assms
    by (simp add: py_int_two_digits [OF assms(1) b(1)] py_int_two_digits [OF assms(3) b(2)])
qed

lemma strftime_HM_replace:
  "strftime_HM (d\<lparr>hour := h, minute := mi, second := s, microsecond := u\<rparr>)
     = hhmm h mi"
  by (simp add: strftime_HM_def)


lemma update_loop_well_formed:
  assumes "\<forall>p\<in>set ps. \<forall>v. tm p = Some v \<longrightarrow>
             (\<exists>h mi. 0 \<le> h \<and> h < 24 \<and> 0 \<le> mi \<and> mi < 60 \<and>
                     v = hhmm h mi)"
  shows "fst (update_loop tm d ps acc) = None \<and>
         (\<forall>q. snd (update_loop tm d ps acc) q =
                (if q \<in> set ps then (case tm q of None \<Rightarrow> acc q | Some v \<Rightarrow> parse_time d v)
                 else acc q))"
  using assms
proof (induction ps arbitrary: acc)
  case Nil
  then show ?case by simp
next
  case (Cons p ps)
  then have rest: "\<forall>p\<in>set ps. \<forall>v. tm p = Some v \<longrightarrow>
             (\<exists>h mi. 0 \<le> h \<and> h < 24 \<and> 0 \<le> mi \<and> mi < 60 \<and>
                     v = hhmm h mi)"
    by simp
  note ih = Cons.IH [OF rest]
  show ?case
  proof (cases "tm p")
    case None
    then show ?thesis using ih [of acc] by (simp split: option.splits)
  next
    case (Some v)
    with Cons.prems obtain h mi
      where b: "0 \<le> h" "h < 24" "0 \<le> mi" "mi < 60"
        and v: "v = hhmm h mi"
      by auto
    have b': "h < 100" "mi < 100" using b by simp_all
    have sp: "split v = [v]"
      unfolding v by (rule split_hhmm [OF b(1) b'(1) b(3) b'(2)])
    have pa: "parse_time d v = Some (d\<lparr>hour := h, minute := mi, second := 0, microsecond := 0\<rparr>)"
      unfolding v by (rule parse_time_hhmm [OF b])
    define acc' where
      "acc' = acc(p \<mapsto> d\<lparr>hour := h, minute := mi, second := 0, microsecond := 0\<rparr>)"
    have step: "update_loop tm d (p # ps) acc = update_loop tm d ps acc'"
      using Some sp pa by (simp add: acc'_def)
    have f: "fst (update_loop tm d ps acc') = None"
      using ih [of acc'] by blast
    have g: "snd (update_loop tm d ps acc') q =
               (if q \<in> set ps then (case tm q of None \<Rightarrow> acc' q | Some v \<Rightarrow> parse_time d v)
                else acc' q)" for q
      using ih [of acc'] by blast
    have "snd (update_loop tm d ps acc') q =
            (if q \<in> set (p # ps)
             then (case tm q of None \<Rightarrow> acc q | Some v \<Rightarrow> parse_time d v)
             else acc q)" for q
    proof (cases "q = p")
      case True
      then show ?thesis unfolding g using Some pa by (simp add: acc'_def)
    next
      case False
      then show ?thesis unfolding g by (simp add: acc'_def split: option.splits)
    qed
    then show ?thesis unfolding step using f by blast
  qed
qed

lemma console_scan_scan_next:
  assumes now: "valid_datetime now" and day: "ordinal d = ordinal now"
    and rel: "\<forall>p\<in>set ps.
                (tm p = None \<and> pt p = None) \<or>
                (\<exists>h mi. 0 \<le> h \<and> h < 24 \<and> 0 \<le> mi \<and> mi < 60 \<and>
                   tm p = Some (hhmm h mi) \<and>
                   pt p = Some (d\<lparr>hour := h, minute := mi, second := 0, microsecond := 0\<rparr>))"
  shows "console_scan tm (strftime_HM now) ps =
           map_option (\<lambda>(p, t). (p, strftime_HM t)) (scan_next pt now ps)"
  using rel
proof (induction ps)
  case Nil
  then show ?case by simp
next
  case (Cons p ps)
  then have ih: "console_scan tm (strftime_HM now) ps =
                   map_option (\<lambda>(p, t). (p, strftime_HM t)) (scan_next pt now ps)"
    by simp
  from Cons.prems consider
      (absent) "tm p = None" "pt p = None"
    | (present) h mi where "0 \<le> h" "h < 24" "0 \<le> mi" "mi < 60"
        "tm p = Some (hhmm h mi)"
        "pt p = Some (d\<lparr>hour := h, minute := mi, second := 0, microsecond := 0\<rparr>)"
    by auto
  then show ?case
  proof cases
    case absent
    then show ?thesis using ih by simp
  next
    case present
    have n: "0 \<le> hour now" "hour now < 100" "0 \<le> minute now" "minute now < 100"
      using now unfolding valid_datetime_def by simp_all
    have b: "h < 100" "mi < 100" using present(2,4) by simp_all
    have s: "strftime_HM now < hhmm h mi
               \<longleftrightarrow> hour now < h \<or> hour now = h \<and> minute now < mi"
      unfolding strftime_HM_def
      by (rule hhmm_less_iff [OF n(1,2) present(1) b(1) n(3,4) present(3) b(2)])
    have t: "dt_less now (d\<lparr>hour := h, minute := mi, second := 0, microsecond := 0\<rparr>)
               \<longleftrightarrow> hour now < h \<or> hour now = h \<and> minute now < mi"
      by (rule dt_less_replace_iff [OF now day])
    show ?thesis
      using present(5,6) ih s t by (auto simp: strftime_HM_replace)
  qed
qed

text \<open>
  C10. Let the service give, for each of the five prayers, either nothing or a zero-padded
  \<^verbatim>\<open>HH:MM\<close> string. The console variant keeps the strings and compares them with
  \<^verbatim>\<open>now.strftime('%H:%M')\<close>; the GUI variant parses them into times of the day of \<open>now\<close>
  and compares datetimes. Over the order Fajr, Dhuhr, Asr, Maghrib, Isha both loops select
  the same prayer, or both none, and the string the console returns is the time the GUI
  returns, printed as \<^verbatim>\<open>HH:MM\<close>.
\<close>

theorem console_scan_refines_scan_next:
  assumes "valid_datetime now" and "ordinal date_obj = ordinal now"
    and "\<forall>p\<in>set PRAYERS. \<forall>v. tm p = Some v \<longrightarrow>
           (\<exists>h mi. 0 \<le> h \<and> h < 24 \<and> 0 \<le> mi \<and> mi < 60 \<and>
                   v = hhmm h mi)"
  shows "fst (update_loop tm date_obj PRAYERS Map.empty) = None \<and>
         console_scan tm (strftime_HM now) PRAYERS =
           map_option (\<lambda>(p, t). (p, strftime_HM t))
             (scan_next (snd (update_loop tm date_obj PRAYERS Map.empty)) now PRAYERS) \<and>
         map_option fst (console_scan tm (strftime_HM now) PRAYERS) =
           map_option fst
             (scan_next (snd (update_loop tm date_obj PRAYERS Map.empty)) now PRAYERS)"
proof -
  define pt where "pt = snd (update_loop tm date_obj PRAYERS Map.empty)"
  note u = update_loop_well_formed [OF assms(3), of date_obj Map.empty]
  have pt: "pt q = (if q \<in> set PRAYERS
                    then (case tm q of None \<Rightarrow> None | Some v \<Rightarrow> parse_time date_obj v)
                    else None)" for q
    unfolding pt_def using u by simp
  have rel: "\<forall>p\<in>set PRAYERS.
               (tm p = None \<and> pt p = None) \<or>
               (\<exists>h mi. 0 \<le> h \<and> h < 24 \<and> 0 \<le> mi \<and> mi < 60 \<and>
                  tm p = Some (hhmm h mi) \<and>
                  pt p = Some (date_obj\<lparr>hour := h, minute := mi, second := 0, microsecond := 0\<rparr>))"
  proof
    fix p assume p: "p \<in> set PRAYERS"
    show "(tm p = None \<and> pt p = None) \<or>
          (\<exists>h mi. 0 \<le> h \<and> h < 24 \<and> 0 \<le> mi \<and> mi < 60 \<and>
             tm p = Some (hhmm h mi) \<and>
             pt p = Some (date_obj\<lparr>hour := h, minute := mi, second := 0, microsecond := 0\<rparr>))"
    proof (cases "tm p")
      case None
      then show ?thesis using p by (simp add: pt)
    next
      case (Some v)
      with assms(3) p obtain h mi
        where b: "0 \<le> h" "h < 24" "0 \<le> mi" "mi < 60"
          and v: "v = hhmm h mi"
        by blast
      have "pt p = Some (date_obj\<lparr>hour := h, minute := mi, second := 0, microsecond := 0\<rparr>)"
        using p Some by (simp add: pt v parse_time_hhmm [OF b])
      with b Some v show ?thesis by blast
    qed
  qed
  have eq: "console_scan tm (strftime_HM now) PRAYERS =
              map_option (\<lambda>(p, t). (p, strftime_HM t)) (scan_next pt now PRAYERS)"
    by (rule console_scan_scan_next [OF assms(1,2) rel])
  have names: "map_option fst (console_scan tm (strftime_HM now) PRAYERS) =
                 map_option fst (scan_next pt now PRAYERS)"
    unfolding eq by (cases "scan_next pt now PRAYERS") auto
  show ?thesis
    using u eq names unfolding pt_def by blast
qed

text \<open>The scenario at 14:00:30.25: both variants select Asr, 15:45.\<close>

theorem console_scan_refines_scan_next_witness:
  "valid_datetime (at_time 14 0 30 250000) \<and>
   ordinal (at_time 0 5 0 0) = ordinal (at_time 14 0 30 250000) \<and>
   map scenario_timings PRAYERS =
     [Some (hhmm 5 12), Some (hhmm 12 30),
      Some (hhmm 15 45), Some (hhmm 18 20),
      Some (hhmm 19 50)] \<and>
   scan_next (snd (update_loop scenario_timings (at_time 0 5 0 0) PRAYERS Map.empty))
     (at_time 14 0 30 250000) PRAYERS = Some (''Asr'', at_time 15 45 0 0) \<and>
   console_scan scenario_timings (strftime_HM (at_time 14 0 30 250000)) PRAYERS =
     Some (''Asr'', ''15:45'')"
proof -
  have v: "valid_datetime (at_time 14 0 30 250000)"
    by (simp add: valid_datetime_def at_time_def)
  have o: "ordinal (at_time 0 5 0 0) = ordinal (at_time 14 0 30 250000)"
    by (simp add: at_time_def)
  have m: "map scenario_timings PRAYERS =
     [Some (hhmm 5 12), Some (hhmm 12 30),
      Some (hhmm 15 45), Some (hhmm 18 20),
      Some (hhmm 19 50)]"
    by (simp add: scenario_timings_def PRAYERS_def hhmm_def two_digits_def digit_char_def char_of_def)
  have w: "\<forall>p\<in>set PRAYERS. \<forall>v. scenario_timings p = Some v \<longrightarrow>
           (\<exists>h mi. 0 \<le> h \<and> h < 24 \<and> 0 \<le> mi \<and> mi < 60 \<and>
                   v = hhmm h mi)"
  proof (intro ballI allI impI)
    fix p v assume p: "p \<in> set PRAYERS" and s: "scenario_timings p = Some v"
    from p m s consider
        "v = hhmm 5 12" | "v = hhmm 12 30"
      | "v = hhmm 15 45" | "v = hhmm 18 20"
      | "v = hhmm 19 50"
      unfolding PRAYERS_def by auto
    then show "\<exists>h mi. 0 \<le> h \<and> h < 24 \<and> 0 \<le> mi \<and> mi < 60 \<and>
                 v = hhmm h mi"
    proof cases
      case 1 then show ?thesis by (intro exI [of _ 5] exI [of _ 12]) simp
    next
      case 2 then show ?thesis by (intro exI [of _ 12] exI [of _ 30]) simp
    next
      case 3 then show ?thesis by (intro exI [of _ 15] exI [of _ 45]) simp
    next
      case 4 then show ?thesis by (intro exI [of _ 18] exI [of _ 20]) simp
    next
      case 5 then show ?thesis by (intro exI [of _ 19] exI [of _ 50]) simp
    qed
  qed
  have g: "scan_next (snd (update_loop scenario_timings (at_time 0 5 0 0) PRAYERS Map.empty))
             (at_time 14 0 30 250000) PRAYERS = Some (''Asr'', at_time 15 45 0 0)"
    by (simp add: scenario_timings_def PRAYERS_def split_def is_space_def
          parse_time_def py_int_def strip_def int_unsigned_def is_digit_def digit_value_def
          at_time_def dt_less_def dt_key_def)
  have c: "console_scan scenario_timings (strftime_HM (at_time 14 0 30 250000)) PRAYERS =
             Some (''Asr'', ''15:45'')"
    using console_scan_refines_scan_next [OF v o w]
    unfolding g
    by (simp add: strftime_HM_def at_time_def hhmm_def two_digits_def digit_char_def char_of_def)
  show ?thesis using v o m g c by simp
qed

subsection \<open>Queries do not change the schedule\<close>

text \<open>Running the primitives and the loops: what they return and what they leave.\<close>

lemma run_read_now: "run_state (read_now clock) m = (clock (timezone m), m)"
  by (simp add: read_now_def)

lemma run_lookup_time: "run_state (lookup_time prayer) m = (prayer_times m prayer, m)"
  by (simp add: lookup_time_def)

lemma run_next_loop:
  "run_state (next_loop now ps) m = (scan_next (prayer_times m) now ps, m)"
  by (induction ps) (simp_all add: run_lookup_time split: option.split)

lemma run_prev_loop:
  "run_state (prev_loop now ps prev) m = (scan_prev (prayer_times m) now ps prev, m)"
  by (induction ps) (simp_all add: run_lookup_time split: option.split)

text \<open>Each method returns what the function of the same name computes, and the manager as it was.\<close>

lemma run_get_next_prayer_method:
  "run_state (get_next_prayer_method clock) m = (get_next_prayer m (clock (timezone m)), m)"
  by (simp add: get_next_prayer_method_def get_next_prayer_def run_read_now run_next_loop
        run_lookup_time split: option.split)

lemma run_get_time_remaining_method:
  "run_state (get_time_remaining_method clock target) m =
     (get_time_remaining (clock (timezone m)) target, m)"
  by (simp add: get_time_remaining_method_def get_time_remaining_def run_read_now Let_def)

lemma run_is_prayer_time_method:
  "run_state (is_prayer_time_method clock prayer) m =
     (is_prayer_time m prayer (clock (timezone m)), m)"
  by (simp add: is_prayer_time_method_def is_prayer_time_def run_read_now run_lookup_time
        split: option.split)

lemma run_progress_window_method:
  "run_state (progress_window_method clock) m = (progress_window m (clock (timezone m)), m)"
  by (simp add: progress_window_method_def progress_window_def run_read_now
        run_get_next_prayer_method run_get_time_remaining_method run_prev_loop
        prev_prayer_time_def progress_of_def Let_def
        split: option.split prod.split)

lemma run_twice:
  "run_state method m = (r, m) \<Longrightarrow> run_state (twice method) m = ((r, r), m)"
  by (simp add: twice_def)

text \<open>
  The statement is about writes: a program that assigns to the object does not leave it
  as it was.
\<close>

lemma twice_set_changes_manager:
  "snd (run_state (twice (State_Monad.set dhuhr_only)) scenario) \<noteq> scenario"
proof -
  have "prayer_times dhuhr_only ''Fajr'' \<noteq> prayer_times scenario ''Fajr''"
    by (simp add: dhuhr_only_def scenario_def)
  then have "dhuhr_only \<noteq> scenario" by auto
  then show ?thesis by (simp add: twice_def)
qed

text \<open>
  C8. Each of the four queries, called twice in a row under the same clock, returns the
  same result both times, the one its function computes from the manager and the instant
  read, and leaves the manager as it was before the calls: the times, the hijri label and
  the time zone.
\<close>

theorem queries_leave_manager_unchanged:
  "run_state (twice (get_next_prayer_method clock)) m =
     ((get_next_prayer m (clock (timezone m)), get_next_prayer m (clock (timezone m))), m) \<and>
   run_state (twice (get_time_remaining_method clock target)) m =
     ((get_time_remaining (clock (timezone m)) target,
       get_time_remaining (clock (timezone m)) target), m) \<and>
   run_state (twice (is_prayer_time_method clock prayer)) m =
     ((is_prayer_time m prayer (clock (timezone m)),
       is_prayer_time m prayer (clock (timezone m))), m) \<and>
   run_state (twice (progress_window_method clock)) m =
     ((progress_window m (clock (timezone m)), progress_window m (clock (timezone m))), m)"
  by (simp only: run_twice [OF run_get_next_prayer_method]
        run_twice [OF run_get_time_remaining_method]
        run_twice [OF run_is_prayer_time_method]
        run_twice [OF run_progress_window_method] simp_thms)

text \<open>
  The scenario with the clock at 14:00: Asr at 15:45 is next, one hour and 45 minutes
  remain, it is not the time of Dhuhr, and 90 of the 195 minutes of the window have passed.
\<close>

theorem queries_leave_manager_unchanged_witness:
  "run_state (twice (get_next_prayer_method two_pm)) scenario =
     ((Some (''Asr'', at_time 15 45 0 0), Some (''Asr'', at_time 15 45 0 0)), scenario) \<and>
   run_state (twice (get_time_remaining_method two_pm (at_time 15 45 0 0))) scenario =
     (((1, 45, 0), (1, 45, 0)), scenario) \<and>
   run_state (twice (is_prayer_time_method two_pm ''Dhuhr'')) scenario =
     ((False, False), scenario) \<and>
   run_state (twice (progress_window_method two_pm)) scenario =
     ((Some (at_time 12 30 0 0, at_time 15 45 0 0, 6 / 13),
       Some (at_time 12 30 0 0, at_time 15 45 0 0, 6 / 13)), scenario)"
proof -
  have n: "get_next_prayer scenario (at_time 14 0 0 0) = Some (''Asr'', at_time 15 45 0 0)"
    by (simp add: get_next_prayer_def scenario_def PRAYERS_def dt_less_def dt_key_def at_time_def)
  have r: "get_time_remaining (at_time 14 0 0 0) (at_time 15 45 0 0) = (1, 45, 0)"
    by (simp add: get_time_remaining_eq to_microseconds_def at_time_def)
  have i: "\<not> is_prayer_time scenario ''Dhuhr'' (at_time 14 0 0 0)"
    by (simp add: is_prayer_time_def scenario_def dt_sub_def abs_total_seconds_less_60
          to_microseconds_def at_time_def)
  have p: "prev_prayer_time scenario (at_time 14 0 0 0) = at_time 12 30 0 0"
    by (simp add: prev_prayer_time_def scenario_def REVERSED_def dt_less_def dt_key_def
          at_time_def)
  have f: "progress_of (at_time 14 0 0 0) (at_time 12 30 0 0) (at_time 15 45 0 0) = 6 / 13"
    by (simp add: progress_of_eq to_microseconds_def at_time_def)
  have w: "progress_window scenario (at_time 14 0 0 0) =
             Some (at_time 12 30 0 0, at_time 15 45 0 0, 6 / 13)"
    unfolding progress_window_def n p by (simp add: f)
  show ?thesis
    using queries_leave_manager_unchanged
            [of two_pm scenario "at_time 15 45 0 0" "''Dhuhr''"]
    by (simp add: two_pm_def n r i w)
qed

subsection \<open>Further facts about the two variants\<close>

text \<open>
  The update fails only through an entry without a word: when every entry present has one,
  the loop ends normally and \<^verbatim>\<open>update\<close> returns \<^verbatim>\<open>True\<close>.
\<close>

lemma update_loop_no_blank:
  "\<forall>p\<in>set ps. \<forall>v. tm p = Some v \<longrightarrow> split v \<noteq> [] \<Longrightarrow>
     fst (update_loop tm d ps acc) = None"
  by (induction ps arbitrary: acc) (auto split: option.splits list.splits)

lemma update_no_blank:
  assumes "\<forall>p\<in>set PRAYERS. \<forall>v. timings d p = Some v \<longrightarrow> split v \<noteq> []"
  shows "\<exists>m'. update zone_info tz_name m (Some d) date_obj = Inr (True, m')"
proof -
  obtain e pt where r: "update_loop (timings d) date_obj PRAYERS Map.empty = (e, pt)"
    by (cases "update_loop (timings d) date_obj PRAYERS Map.empty")
  have "e = None"
    using update_loop_no_blank [OF assms, of date_obj Map.empty] r by simp
  then show ?thesis
    unfolding update_def Let_def using r by simp
qed

text \<open>When the loop of the console variant finds a prayer, the method returns it.\<close>

lemma console_get_next_prayer_found:
  assumes "items \<noteq> []"
    and "console_scan (map_of items) (strftime_HM now) enabled_prayers = Some (p, s)"
  shows "console_get_next_prayer names_ar items enabled_prayers now =
           Inr (Next p (case names_ar p of Some a \<Rightarrow> a | None \<Rightarrow> p) s)"
  using assms by (simp add: console_get_next_prayer_def)

end
